theory Spec2Isabelle
  imports
    Main
    "HOL-Library.Char_ord"
    "HOL-Library.List_Lexorder"
begin

section \<open>Values, objects and errors\<close>

text \<open>
  The orchestrator of \<^verbatim>\<open>src/backend/internal/proxy-host.js\<close> is embedded as pure
  functions over an explicit state. A JavaScript object with open keys (the \<^verbatim>\<open>meta\<close>
  column, the remaining columns of a host) is a map from keys to values.
\<close>

datatype json = JNull | JBool bool | JNum int | JStr string

type_synonym object = "string \<rightharpoonup> json"

text \<open>
  lodash \<^verbatim>\<open>_.assign(target, source)\<close>: every own key of the source is written to
  the target, so a key of the source overwrites the same key of the target and
  the other keys of the target stay. \<^verbatim>\<open>_.assign({}, a, b)\<close> is
  \<open>assign (assign Map.empty a) b\<close>.
\<close>

definition assign :: "object \<Rightarrow> object \<Rightarrow> object" where
  "assign target source = target ++ source"

text \<open>\<^verbatim>\<open>data.meta || {}\<close>: an absent meta reads as the empty object.\<close>

definition or_empty :: "object option \<Rightarrow> object" where
  "or_empty m = (case m of None \<Rightarrow> Map.empty | Some x \<Rightarrow> x)"

text \<open>\<^verbatim>\<open>Array.prototype.join\<close>.\<close>

fun join :: "string \<Rightarrow> string list \<Rightarrow> string" where
  "join sep [] = []"
| "join sep [x] = x"
| "join sep (x # y # ys) = x @ sep @ join sep (y # ys)"

text \<open>Decimal rendering of an identifier, as string concatenation does it.\<close>

fun string_of_nat :: "nat \<Rightarrow> string" where
  "string_of_nat n =
     (if n < 10 then [''0123456789'' ! n]
      else string_of_nat (n div 10) @ [''0123456789'' ! (n mod 10)])"

text \<open>
  The errors a promise of this module rejects with. The first three are the
  classes of \<^verbatim>\<open>../lib/error\<close> thrown here; \<open>TypeError\<close> is the runtime's error for a
  property read on \<^verbatim>\<open>undefined\<close>; \<open>Rejected\<close> is a rejection of a collaborator
  (authorization, storage, publisher, audit), which this module never catches and
  passes on unchanged.
\<close>

datatype error =
    ValidationError string
  | InternalValidationError string
  | ItemNotFoundError nat
  | TypeError string
  | Rejected string

section \<open>Data model\<close>

text \<open>A stored row of the \<^verbatim>\<open>proxy_host\<close> table.\<close>

record row =
  row_id :: nat
  owner_user_id :: nat
  domain_names :: "string list"
  meta :: object
  is_deleted :: bool
  columns :: object

text \<open>
  A row as a query returns it: the stored fields, the names of the fields the
  query or \<^verbatim>\<open>_.omit\<close> removed from the object handed out, and the eager expression
  the query asked for. The stored value of an omitted field stays in the record,
  so that a property of the underlying row can still be stated; the objects an
  eager expression attaches (owner, access list, certificate) belong to other
  tables and are not part of the record.
\<close>

record fetched = row +
  omitted :: "string list"
  eager :: "string option"

definition fetched_of :: "row \<Rightarrow> string list \<Rightarrow> string option \<Rightarrow> fetched" where
  "fetched_of r om eg =
     \<lparr>row_id = row_id r, owner_user_id = owner_user_id r, domain_names = domain_names r,
      meta = meta r, is_deleted = is_deleted r, columns = columns r,
      omitted = om, eager = eg\<rparr>"

text \<open>\<^verbatim>\<open>_.omit(row, names)\<close>.\<close>

definition omit :: "fetched \<Rightarrow> string list \<Rightarrow> fetched" where
  "omit r names = r\<lparr>omitted := List.union (omitted r) names\<rparr>"

definition omissions :: "string list" where
  "omissions = [''is_deleted'']"

text \<open>
  The payload of create; update's payload adds the required \<^verbatim>\<open>id\<close>. Every column
  may be present or absent in a payload, the soft-delete flag included.
\<close>

record payload =
  d_domain_names :: "string list option"
  d_owner_user_id :: "nat option"
  d_meta :: "object option"
  d_is_deleted :: "bool option"
  d_columns :: object

record update_payload = payload +
  d_id :: nat

text \<open>
  The relations a query may expand: the ones \<^verbatim>\<open>allowEager('[owner,access_list,certificate]')\<close>
  admits, which are the ones the spec draws \<^verbatim>\<open>expand\<close> from. An expression outside
  them is rejected by the ORM before the query runs and is outside the typed
  argument.
\<close>

datatype relation = Owner | AccessList | Certificate

fun relation_name :: "relation \<Rightarrow> string" where
  "relation_name Owner = ''owner''"
| "relation_name AccessList = ''access_list''"
| "relation_name Certificate = ''certificate''"

record query =
  q_id :: nat
  q_expand :: "relation list option"
  q_omit :: "string list option"

record delete_data =
  del_id :: nat
  reason :: "string option"

record access_data =
  permission_visibility :: string

datatype resource = NoResource | ById nat | ByPayload payload

record check_result =
  hostname :: string
  is_taken :: bool

datatype audit_payload = MetaCreate payload | MetaUpdate update_payload | MetaRow fetched

record audit_entry =
  action :: string
  object_type :: string
  object_id :: nat
  audit_meta :: audit_payload

datatype nginx_call = Configure nat | DeleteConfig nat | Reload

text \<open>A host of another type (redirection host, dead host), as the registry sees it.\<close>

record host_entry =
  h_type :: string
  h_id :: nat
  h_domain_names :: "string list"
  h_is_deleted :: bool

text \<open>
  The state the operations read and change: the \<^verbatim>\<open>proxy_host\<close> table, the hosts of
  the other types, the audit log, and the calls made to the configuration
  publisher, in order.
\<close>

record state =
  proxy_hosts :: "row list"
  other_hosts :: "host_entry list"
  audit_log :: "audit_entry list"
  nginx_calls :: "nginx_call list"

text \<open>
  The collaborators whose code is outside this module are parameters: the
  authorization gate \<^verbatim>\<open>access.can\<close> (\<open>Inl\<close> is its rejection), the identity
  \<^verbatim>\<open>access.token.get('attrs').id\<close>, the lookup \<^verbatim>\<open>internalHost.isHostnameTaken\<close>,
  which reads the tables and takes the name and, optionally, a host type and an
  id, the timing that decides which of several rejected lookups rejects first,
  \<^verbatim>\<open>internalHost.cleanMeta\<close>, the outcomes of
  \<^verbatim>\<open>internalNginx.configure\<close>, \<^verbatim>\<open>deleteConfig\<close> and \<^verbatim>\<open>reload\<close>, the outcome of
  \<^verbatim>\<open>internalAuditLog.add\<close>, and the storage engine's \<^verbatim>\<open>LIKE\<close> and collation on
  the \<^verbatim>\<open>domain_names\<close> column.
\<close>

record env =
  can :: "string \<Rightarrow> resource \<Rightarrow> string + access_data"
  token_id :: nat
  isHostnameTaken :: "state \<Rightarrow> string \<Rightarrow> string option \<Rightarrow> nat option \<Rightarrow> string + check_result"
  earliest :: "string list \<Rightarrow> nat"
  cleanMeta :: "object \<Rightarrow> object"
  configure :: "fetched \<Rightarrow> string + object"
  deleteConfig :: "fetched \<Rightarrow> string + unit"
  reload :: "string + unit"
  audit_add :: "audit_entry \<Rightarrow> string + unit"
  like :: "string list \<Rightarrow> string \<Rightarrow> bool"
  order_key :: "string list \<Rightarrow> string"

section \<open>Storage\<close>

text \<open>
  The query builder of the ORM is read as what the built query selects:
  \<^verbatim>\<open>where\<close> and \<^verbatim>\<open>andWhere\<close> keep the rows that satisfy the condition,
  \<^verbatim>\<open>first()\<close> yields the first selected row or \<^verbatim>\<open>undefined\<close> (\<open>None\<close>),
  \<^verbatim>\<open>groupBy('id')\<close> keeps one row for each id, \<^verbatim>\<open>orderBy('domain_names', 'ASC')\<close>
  sorts by the collation key of the column, \<^verbatim>\<open>omit\<close> and \<^verbatim>\<open>eager\<close> mark the rows
  handed out. The table is held in memory: a read or a write of the table does
  not fail, the insert of a row without its mandatory columns apart.
\<close>

definition first :: "'a list \<Rightarrow> 'a option" where
  "first xs = (case xs of [] \<Rightarrow> None | x # _ \<Rightarrow> Some x)"

fun groupBy_id :: "row list \<Rightarrow> row list" where
  "groupBy_id [] = []"
| "groupBy_id (r # rs) = r # groupBy_id (filter (\<lambda>x. row_id x \<noteq> row_id r) rs)"

definition orderBy_domain_names :: "env \<Rightarrow> row list \<Rightarrow> row list" where
  "orderBy_domain_names e rs = sort_key (\<lambda>r. order_key e (domain_names r)) rs"

text \<open>The eager expression \<^verbatim>\<open>'[' + expand.join(', ') + ']'\<close>.\<close>

definition eager_of :: "relation list option \<Rightarrow> string option" where
  "eager_of expand =
     (case expand of
        None \<Rightarrow> None
      | Some names \<Rightarrow> Some (''['' @ join '', '' (map relation_name names) @ '']''))"

text \<open>The auto-increment key of the next inserted row.\<close>

definition fresh_id :: "row list \<Rightarrow> nat" where
  "fresh_id rs = Suc (fold max (map row_id rs) 0)"

text \<open>
  \<^verbatim>\<open>query().omit(omissions()).insertAndFetch(data)\<close>: the new row gets a fresh id and
  is appended to the table; \<^verbatim>\<open>owner_user_id\<close> and \<^verbatim>\<open>domain_names\<close> are mandatory
  columns, and an insert without them is rejected by the storage layer. The
  \<^verbatim>\<open>omit\<close> only drops \<^verbatim>\<open>is_deleted\<close> from the object handed back: a flag the payload
  carries is written, and a payload without one gets the column's default.
\<close>

definition insertAndFetch :: "payload \<Rightarrow> state \<Rightarrow> error + (fetched \<times> state)" where
  "insertAndFetch data s =
     (case d_owner_user_id data of
        None \<Rightarrow> Inl (Rejected ''owner_user_id is required'')
      | Some u \<Rightarrow>
          (case d_domain_names data of
             None \<Rightarrow> Inl (Rejected ''domain_names is required'')
           | Some names \<Rightarrow>
               let r = \<lparr>row_id = fresh_id (proxy_hosts s), owner_user_id = u,
                        domain_names = names, meta = or_empty (d_meta data),
                        is_deleted = (case d_is_deleted data of None \<Rightarrow> False | Some b \<Rightarrow> b),
                        columns = d_columns data\<rparr>
               in Inr (fetched_of r omissions None,
                       s\<lparr>proxy_hosts := proxy_hosts s @ [r]\<rparr>)))"

text \<open>
  A partial patch writes the fields present in the payload, the soft-delete flag
  included, and keeps the others; a present \<^verbatim>\<open>meta\<close> is written as the column's
  new value.
\<close>

definition patch_row :: "update_payload \<Rightarrow> row \<Rightarrow> row" where
  "patch_row data r =
     r\<lparr>row_id := d_id data,
       owner_user_id := (case d_owner_user_id data of None \<Rightarrow> owner_user_id r | Some u \<Rightarrow> u),
       domain_names := (case d_domain_names data of None \<Rightarrow> domain_names r | Some n \<Rightarrow> n),
       meta := (case d_meta data of None \<Rightarrow> meta r | Some m \<Rightarrow> m),
       is_deleted := (case d_is_deleted data of None \<Rightarrow> is_deleted r | Some b \<Rightarrow> b),
       columns := assign (columns r) (d_columns data)\<rparr>"

text \<open>
  \<^verbatim>\<open>query().omit(omissions()).patchAndFetchById(id, data)\<close>: patches the rows with
  that id and fetches the row by id afterwards (\<open>None\<close> when there is none).
\<close>

definition patchAndFetchById :: "nat \<Rightarrow> update_payload \<Rightarrow> state \<Rightarrow> fetched option \<times> state" where
  "patchAndFetchById i data s =
     (let rows' = map (\<lambda>r. if row_id r = i then patch_row data r else r) (proxy_hosts s)
      in (map_option (\<lambda>r. fetched_of r omissions None) (find (\<lambda>r. row_id r = i) rows'),
          s\<lparr>proxy_hosts := rows'\<rparr>))"

text \<open>\<^verbatim>\<open>query().where('id', id).patch({is_deleted: 1})\<close>.\<close>

definition soft_delete :: "nat \<Rightarrow> state \<Rightarrow> state" where
  "soft_delete i s =
     s\<lparr>proxy_hosts := map (\<lambda>r. if row_id r = i then r\<lparr>is_deleted := True\<rparr> else r) (proxy_hosts s)\<rparr>"

section \<open>Collaborators\<close>

text \<open>
  Modelled from the spec: the records that \<^verbatim>\<open>internalHost.isHostnameTaken\<close> of
  \<^verbatim>\<open>./host\<close>, which is not among the sources, looks through. The spec gives it as
  \<^verbatim>\<open>isHostnameTaken(domain, hostTypeFilter?, excludeId?) -> {hostname, is_taken}\<close>: it
  checks whether the name is already claimed by any active host record
  system-wide, of any host type, and update's call excludes the record identified
  by its id from conflict consideration. The records system-wide are the proxy
  hosts of the table, of type \<^verbatim>\<open>proxy\<close>, and the hosts of the other types.
\<close>

definition registry :: "state \<Rightarrow> host_entry list" where
  "registry s =
     map (\<lambda>r. \<lparr>h_type = ''proxy'', h_id = row_id r, h_domain_names = domain_names r,
               h_is_deleted = is_deleted r\<rparr>) (proxy_hosts s)
     @ other_hosts s"

text \<open>
  Modelled from the spec: the record a lookup leaves out of consideration, which
  is the one of the given host type with the given id.
\<close>

definition excluded :: "string option \<Rightarrow> nat option \<Rightarrow> host_entry \<Rightarrow> bool" where
  "excluded ignore_type ignore_id h =
     (ignore_type = Some (h_type h) \<and> ignore_id = Some (h_id h))"

text \<open>
  Modelled from the spec: the lookup as the spec describes it, to stand for the
  parameter \<open>isHostnameTaken\<close> where a property depends on what the lookup does. It
  answers with the queried name and with whether an active record that is not
  left out claims that name.
\<close>

definition isHostnameTaken_spec :: "state \<Rightarrow> string \<Rightarrow> string option \<Rightarrow> nat option \<Rightarrow> check_result" where
  "isHostnameTaken_spec s name ignore_type ignore_id =
     \<lparr>hostname = name,
      is_taken = list_ex (\<lambda>h. \<not> h_is_deleted h \<and> name \<in> set (h_domain_names h)
                               \<and> \<not> excluded ignore_type ignore_id h) (registry s)\<rparr>"

text \<open>
  Modelled from the spec: the effect of \<^verbatim>\<open>internalNginx.configure\<close> of \<^verbatim>\<open>./nginx\<close>
  on the stored row. The spec says that configure activates the serving
  configuration and may annotate the row's meta; the annotation is the object the
  parameter \<open>configure\<close> yields, assigned onto the stored meta of the row.
\<close>

definition annotate :: "nat \<Rightarrow> object \<Rightarrow> state \<Rightarrow> state" where
  "annotate i ann s =
     s\<lparr>proxy_hosts :=
         map (\<lambda>r. if row_id r = i then r\<lparr>meta := assign (meta r) ann\<rparr> else r) (proxy_hosts s)\<rparr>"

text \<open>The record of a call to the publisher, made whatever the call's outcome.\<close>

definition called :: "nginx_call \<Rightarrow> state \<Rightarrow> state" where
  "called c s = s\<lparr>nginx_calls := nginx_calls s @ [c]\<rparr>"

text \<open>
  Modelled from the spec: the effect of \<^verbatim>\<open>internalAuditLog.add\<close> of \<^verbatim>\<open>./audit-log\<close>,
  which appends the record when the recorder accepts it.
\<close>

definition audited :: "audit_entry \<Rightarrow> state \<Rightarrow> state" where
  "audited entry s = s\<lparr>audit_log := audit_log s @ [entry]\<rparr>"

section \<open>The operations\<close>

subsection \<open>The hostname check of create and update\<close>

text \<open>
  \<^verbatim>\<open>check_results.map(result => { if (result.is_taken) throw ... })\<close>: the results
  are visited in the order of the array, which \<^verbatim>\<open>Promise.all\<close> keeps in the order
  of the requested names, and the first taken result throws.
\<close>

fun check_results :: "check_result list \<Rightarrow> error + unit" where
  "check_results [] = Inr ()"
| "check_results (r # rs) =
     (if is_taken r then Inl (ValidationError (hostname r @ '' is already in use''))
      else check_results rs)"

text \<open>
  \<^verbatim>\<open>Promise.all\<close>: the results in the order of the promises when all of them
  resolve, a rejection when one of them rejects. When several reject, the one
  that rejects first in time is passed on; which one that is, is the parameter
  \<open>earliest\<close>, an index into the rejections.
\<close>

definition rejections :: "(string + 'a) list \<Rightarrow> string list" where
  "rejections ps = concat (map (\<lambda>p. case p of Inl err \<Rightarrow> [err] | Inr x \<Rightarrow> []) ps)"

definition resolutions :: "(string + 'a) list \<Rightarrow> 'a list" where
  "resolutions ps = concat (map (\<lambda>p. case p of Inl err \<Rightarrow> [] | Inr x \<Rightarrow> [x]) ps)"

definition promise_all :: "(string list \<Rightarrow> nat) \<Rightarrow> (string + 'a) list \<Rightarrow> string + 'a list" where
  "promise_all first_in_time ps =
     (case rejections ps of
        [] \<Rightarrow> Inr (resolutions ps)
      | r # rs \<Rightarrow> Inl ((r # rs) ! (first_in_time (r # rs) mod length (r # rs))))"

text \<open>
  The first continuation of create: one lookup for each name, then the scan of the
  results. Reading \<^verbatim>\<open>data.domain_names.map\<close> on a payload without names throws.
\<close>

definition create_check :: "env \<Rightarrow> state \<Rightarrow> 'a payload_scheme \<Rightarrow> error + unit" where
  "create_check e s data =
     (case d_domain_names data of
        None \<Rightarrow> Inl (TypeError ''Cannot read property map of undefined'')
      | Some names \<Rightarrow>
          (case promise_all (earliest e)
                  (map (\<lambda>name. isHostnameTaken e s name None None) names) of
             Inl err \<Rightarrow> Inl (Rejected err)
           | Inr results \<Rightarrow> check_results results))"

text \<open>
  The first continuation of update: the check runs only when the names are
  present, and every lookup passes \<^verbatim>\<open>'proxy'\<close> and \<^verbatim>\<open>data.id\<close>.
\<close>

definition update_check :: "env \<Rightarrow> state \<Rightarrow> update_payload \<Rightarrow> error + unit" where
  "update_check e s data =
     (case d_domain_names data of
        None \<Rightarrow> Inr ()
      | Some names \<Rightarrow>
          (case promise_all (earliest e)
                  (map (\<lambda>name. isHostnameTaken e s name (Some ''proxy'') (Some (d_id data))) names) of
             Inl err \<Rightarrow> Inl (Rejected err)
           | Inr results \<Rightarrow> check_results results))"

subsection \<open>get\<close>

text \<open>
  The argument is typed as the JSDoc types it: an object with an integer id. The
  value the promise resolves with is an option, \<open>None\<close> standing for a falsy value,
  so that the truthiness test a caller makes on it has a model. This module's own
  calls of get ask for no omission, so the \<^verbatim>\<open>id\<close> and \<^verbatim>\<open>meta\<close> they read from the
  row are the stored ones; the same reading is kept for a caller that omits them.
\<close>

definition get_query :: "env \<Rightarrow> access_data \<Rightarrow> query \<Rightarrow> state \<Rightarrow> fetched option" where
  "get_query e access_data data s =
     (let rows0 = filter (\<lambda>r. \<not> is_deleted r) (proxy_hosts s);
          rows1 = filter (\<lambda>r. row_id r = q_id data) rows0;
          rows2 = (if permission_visibility access_data \<noteq> ''all''
                   then filter (\<lambda>r. owner_user_id r = token_id e) rows1 else rows1)
      in map_option
           (\<lambda>r. fetched_of r (case q_omit data of None \<Rightarrow> [] | Some names \<Rightarrow> names)
                              (eager_of (q_expand data)))
           (first rows2))"

definition get :: "env \<Rightarrow> query \<Rightarrow> state \<Rightarrow> error + fetched option" where
  "get e data s =
     (case can e ''proxy_hosts:get'' (ById (q_id data)) of
        Inl err \<Rightarrow> Inl (Rejected err)
      | Inr access_data \<Rightarrow>
          (case get_query e access_data data s of
             Some row \<Rightarrow> Inr (Some (omit (row\<lparr>meta := cleanMeta e (meta row)\<rparr>) omissions))
           | None \<Rightarrow> Inl (ItemNotFoundError (q_id data))))"

subsection \<open>create\<close>

text \<open>
  create returns its result, the payload object as the call leaves it (the source
  writes \<^verbatim>\<open>data.owner_user_id\<close> and \<^verbatim>\<open>data.meta\<close> in place), and the state.
\<close>

definition create_audit :: "env \<Rightarrow> payload \<Rightarrow> fetched \<Rightarrow> state
    \<Rightarrow> (error + fetched) \<times> payload \<times> state" where
  "create_audit e data row s =
     (let data' = data\<lparr>d_meta := Some (assign (assign Map.empty (or_empty (d_meta data))) (meta row))\<rparr>;
          entry = \<lparr>action = ''created'', object_type = ''proxy-host'',
                   object_id = row_id row, audit_meta = MetaCreate data'\<rparr>
      in (case audit_add e entry of
            Inl err \<Rightarrow> (Inl (Rejected err), data', s)
          | Inr _ \<Rightarrow> (Inr row, data', audited entry s)))"

definition create_configure :: "env \<Rightarrow> payload \<Rightarrow> fetched \<Rightarrow> state
    \<Rightarrow> (error + fetched) \<times> payload \<times> state" where
  "create_configure e data row s =
     (let s1 = called (Configure (row_id row)) s
      in (case configure e row of
            Inl err \<Rightarrow> (Inl (Rejected err), data, s1)
          | Inr ann \<Rightarrow>
              (let s2 = annotate (row_id row) ann s1
               in (case get e \<lparr>q_id = row_id row, q_expand = Some [Owner], q_omit = None\<rparr> s2 of
                     Inl err \<Rightarrow> (Inl err, data, s2)
                   | Inr None \<Rightarrow> (Inl (TypeError ''Cannot read property meta of undefined''), data, s2)
                   | Inr (Some row') \<Rightarrow> create_audit e data row' s2))))"

definition create :: "env \<Rightarrow> payload \<Rightarrow> state \<Rightarrow> (error + fetched) \<times> payload \<times> state" where
  "create e data s =
     (case can e ''proxy_hosts:create'' (ByPayload data) of
        Inl err \<Rightarrow> (Inl (Rejected err), data, s)
      | Inr access_data \<Rightarrow>
          (case create_check e s data of
             Inl err \<Rightarrow> (Inl err, data, s)
           | Inr _ \<Rightarrow>
               (let data1 = data\<lparr>d_owner_user_id := Some (token_id e)\<rparr>
                in (case insertAndFetch data1 s of
                      Inl err \<Rightarrow> (Inl err, data1, s)
                    | Inr (row, s1) \<Rightarrow> create_configure e data1 row s1))))"

subsection \<open>update\<close>

text \<open>The continuation of update that receives the row fetched by get.\<close>

definition update_row :: "env \<Rightarrow> update_payload \<Rightarrow> fetched \<Rightarrow> state \<Rightarrow> (error + fetched) \<times> state" where
  "update_row e data row s =
     (if row_id row \<noteq> d_id data
      then (Inl (InternalValidationError
                   (''Proxy Host could not be updated, IDs do not match: ''
                    @ string_of_nat (row_id row) @ '' !== '' @ string_of_nat (d_id data))), s)
      else
        (case patchAndFetchById (row_id row) data s of
           (None, s1) \<Rightarrow> (Inl (TypeError ''Cannot read property meta of undefined''), s1)
         | (Some saved, s1) \<Rightarrow>
             (let saved_row = saved\<lparr>meta := cleanMeta e (meta saved)\<rparr>;
                  entry = \<lparr>action = ''updated'', object_type = ''proxy-host'',
                           object_id = row_id row, audit_meta = MetaUpdate data\<rparr>
              in (case audit_add e entry of
                    Inl err \<Rightarrow> (Inl (Rejected err), s1)
                  | Inr _ \<Rightarrow> (Inr (omit saved_row omissions), audited entry s1)))))"

definition update :: "env \<Rightarrow> update_payload \<Rightarrow> state \<Rightarrow> (error + fetched) \<times> state" where
  "update e data s =
     (case can e ''proxy_hosts:update'' (ById (d_id data)) of
        Inl err \<Rightarrow> (Inl (Rejected err), s)
      | Inr access_data \<Rightarrow>
          (case update_check e s data of
             Inl err \<Rightarrow> (Inl err, s)
           | Inr _ \<Rightarrow>
               (case get e \<lparr>q_id = d_id data, q_expand = None, q_omit = None\<rparr> s of
                  Inl err \<Rightarrow> (Inl err, s)
                | Inr None \<Rightarrow> (Inl (TypeError ''Cannot read property id of undefined''), s)
                | Inr (Some row) \<Rightarrow> update_row e data row s)))"

subsection \<open>delete\<close>

text \<open>The continuation of delete that receives what get resolved with.\<close>

definition delete_row :: "env \<Rightarrow> delete_data \<Rightarrow> fetched option \<Rightarrow> state \<Rightarrow> (error + bool) \<times> state" where
  "delete_row e data fetched_row s =
     (case fetched_row of
        None \<Rightarrow> (Inl (ItemNotFoundError (del_id data)), s)
      | Some row \<Rightarrow>
          (let s1 = soft_delete (row_id row) s;
               s2 = called (DeleteConfig (row_id row)) s1
           in (case deleteConfig e row of
                 Inl err \<Rightarrow> (Inl (Rejected err), s2)
               | Inr _ \<Rightarrow>
                   (let s3 = called Reload s2
                    in (case reload e of
                          Inl err \<Rightarrow> (Inl (Rejected err), s3)
                        | Inr _ \<Rightarrow>
                            (let row' = row\<lparr>meta := cleanMeta e (meta row)\<rparr>;
                                 entry = \<lparr>action = ''deleted'', object_type = ''proxy-host'',
                                          object_id = row_id row,
                                          audit_meta = MetaRow (omit row' omissions)\<rparr>
                             in (case audit_add e entry of
                                   Inl err \<Rightarrow> (Inl (Rejected err), s3)
                                 | Inr _ \<Rightarrow> (Inr True, audited entry s3))))))))"

definition delete :: "env \<Rightarrow> delete_data \<Rightarrow> state \<Rightarrow> (error + bool) \<times> state" where
  "delete e data s =
     (case can e ''proxy_hosts:delete'' (ById (del_id data)) of
        Inl err \<Rightarrow> (Inl (Rejected err), s)
      | Inr _ \<Rightarrow>
          (case get e \<lparr>q_id = del_id data, q_expand = None, q_omit = None\<rparr> s of
             Inl err \<Rightarrow> (Inl err, s)
           | Inr fetched_row \<Rightarrow> delete_row e data fetched_row s))"

subsection \<open>getAll and getCount\<close>

definition getAll_query :: "env \<Rightarrow> access_data \<Rightarrow> string option \<Rightarrow> state \<Rightarrow> row list" where
  "getAll_query e access_data search_query s =
     (let rows0 = filter (\<lambda>r. \<not> is_deleted r) (proxy_hosts s);
          rows1 = (if permission_visibility access_data \<noteq> ''all''
                   then filter (\<lambda>r. owner_user_id r = token_id e) rows0 else rows0);
          rows2 = (case search_query of
                     None \<Rightarrow> rows1
                   | Some q \<Rightarrow> filter (\<lambda>r. like e (domain_names r) (''%'' @ q @ ''%'')) rows1)
      in orderBy_domain_names e (groupBy_id rows2))"

definition getAll :: "env \<Rightarrow> relation list option \<Rightarrow> string option \<Rightarrow> state \<Rightarrow> error + fetched list" where
  "getAll e expand search_query s =
     (case can e ''proxy_hosts:list'' NoResource of
        Inl err \<Rightarrow> Inl (Rejected err)
      | Inr access_data \<Rightarrow>
          Inr (map (\<lambda>r. (fetched_of r [''is_deleted''] (eager_of expand))
                          \<lparr>meta := cleanMeta e (meta r)\<rparr>)
                   (getAll_query e access_data search_query s)))"

text \<open>The rows the count query of getCount matches, and their number.\<close>

definition getCount_query :: "nat \<Rightarrow> string \<Rightarrow> state \<Rightarrow> row list" where
  "getCount_query user_id visibility s =
     (let rows0 = filter (\<lambda>r. \<not> is_deleted r) (proxy_hosts s)
      in if visibility \<noteq> ''all'' then filter (\<lambda>r. owner_user_id r = user_id) rows0 else rows0)"

definition getCount :: "nat \<Rightarrow> string \<Rightarrow> state \<Rightarrow> int" where
  "getCount user_id visibility s = int (length (getCount_query user_id visibility s))"

section \<open>Scenarios\<close>

text \<open>
  Concrete collaborators and tables on which the theorems below are run. The actor
  has identity 1 and the lookup is the one the spec describes. \<open>env_all\<close> sees
  every host, \<open>env_user\<close> only its own; \<open>env_broken\<close> is \<open>env_all\<close> with a publisher
  that cannot remove a configuration.
\<close>

definition env_all :: env where
  "env_all =
     \<lparr>can = (\<lambda>permission resource. Inr \<lparr>permission_visibility = ''all''\<rparr>),
      token_id = 1,
      isHostnameTaken = (\<lambda>s name ignore_type ignore_id.
                           Inr (isHostnameTaken_spec s name ignore_type ignore_id)),
      earliest = (\<lambda>rejected. 0),
      cleanMeta = (\<lambda>m. m(''nginx_err'' := None)),
      configure = (\<lambda>row. Inr [''nginx_online'' \<mapsto> JBool True]),
      deleteConfig = (\<lambda>row. Inr ()),
      reload = Inr (),
      audit_add = (\<lambda>entry. Inr ()),
      like = (\<lambda>names pattern. True),
      order_key = (\<lambda>names. join '','' names)\<rparr>"

definition env_user :: env where
  "env_user = env_all\<lparr>can := (\<lambda>permission resource. Inr \<lparr>permission_visibility = ''user''\<rparr>)\<rparr>"

definition env_broken :: env where
  "env_broken = env_all\<lparr>deleteConfig := (\<lambda>row. Inl ''cannot remove configuration'')\<rparr>"

definition no_hosts :: state where
  "no_hosts = \<lparr>proxy_hosts = [], other_hosts = [], audit_log = [], nginx_calls = []\<rparr>"

definition host5 :: row where
  "host5 = \<lparr>row_id = 5, owner_user_id = 1, domain_names = [''b.example.com''],
            meta = Map.empty, is_deleted = False, columns = Map.empty\<rparr>"

definition host6 :: row where
  "host6 = \<lparr>row_id = 6, owner_user_id = 2, domain_names = [''a.example.com''],
            meta = Map.empty, is_deleted = False, columns = Map.empty\<rparr>"

definition host7 :: row where
  "host7 = \<lparr>row_id = 7, owner_user_id = 1, domain_names = [''c.example.com''],
            meta = Map.empty, is_deleted = True, columns = Map.empty\<rparr>"

definition three_hosts :: state where
  "three_hosts =
     \<lparr>proxy_hosts = [host5, host6, host7],
      other_hosts = [\<lparr>h_type = ''redirection'', h_id = 5, h_domain_names = [''r.example.com''],
                      h_is_deleted = False\<rparr>],
      audit_log = [], nginx_calls = []\<rparr>"

text \<open>A create request that brings its own value for a key the publisher also writes.\<close>

definition new_host :: payload where
  "new_host =
     \<lparr>d_domain_names = Some [''n.example.com''], d_owner_user_id = Some 9,
      d_meta = Some [''nginx_online'' \<mapsto> JBool False, ''note'' \<mapsto> JStr ''mine''],
      d_is_deleted = None, d_columns = Map.empty\<rparr>"

text \<open>An update of host 5 that resubmits the name host 5 already holds.\<close>

definition keep_names5 :: update_payload where
  "keep_names5 =
     \<lparr>d_domain_names = Some [''b.example.com''], d_owner_user_id = None,
      d_meta = None, d_is_deleted = None, d_columns = Map.empty, d_id = 5\<rparr>"

text \<open>An update of host 5 that keeps its name and asks for the name host 6 holds.\<close>

definition grab_names5 :: update_payload where
  "grab_names5 =
     \<lparr>d_domain_names = Some [''b.example.com'', ''a.example.com''], d_owner_user_id = None,
      d_meta = None, d_is_deleted = None, d_columns = Map.empty, d_id = 5\<rparr>"

text \<open>A create request whose second name is held by host 6 and whose third by the redirection host.\<close>

definition taken_names :: payload where
  "taken_names =
     \<lparr>d_domain_names = Some [''n.example.com'', ''a.example.com'', ''r.example.com''],
      d_owner_user_id = None, d_meta = None, d_is_deleted = None, d_columns = Map.empty\<rparr>"

section \<open>Basic facts\<close>

lemmas scenario_defs = env_all_def no_hosts_def host5_def host6_def host7_def three_hosts_def

lemmas op_defs = create_def create_check_def create_configure_def create_audit_def
  insertAndFetch_def isHostnameTaken_spec_def registry_def excluded_def get_def get_query_def
  fetched_of_def omit_def omissions_def eager_of_def fresh_id_def first_def or_empty_def
  assign_def annotate_def called_def audited_def promise_all_def rejections_def
  resolutions_def

lemma first_Some_mem: "first xs = Some x \<Longrightarrow> x \<in> set xs"
  by (cases xs) (auto simp: first_def)

lemma first_None_iff: "first xs = None \<longleftrightarrow> xs = []"
  by (cases xs) (auto simp: first_def)

lemma audit_log_called [simp]: "audit_log (called c s) = audit_log s"
  by (simp add: called_def)

lemma audit_log_annotate [simp]: "audit_log (annotate i ann s) = audit_log s"
  by (simp add: annotate_def)

lemma audit_log_audited [simp]: "audit_log (audited entry s) = audit_log s @ [entry]"
  by (simp add: audited_def)

lemma insertAndFetch_audit_log:
  "insertAndFetch data s = Inr (row, s1) \<Longrightarrow> audit_log s1 = audit_log s"
  by (auto simp: insertAndFetch_def Let_def split: option.splits)

text \<open>A run that resolves is the triple of its resolved value, payload and state.\<close>

lemma resolved_run:
  "isl (fst x) = False \<Longrightarrow> x = (Inr (projr (fst x)), fst (snd x), snd (snd x))"
  by (cases x, cases "fst x") auto

subsection \<open>What a successful create has done\<close>

lemma create_audit_success:
  assumes "create_audit e data row s = (Inr row', data', s')"
  shows "row' = row
    \<and> data' = data\<lparr>d_meta := Some (assign (assign Map.empty (or_empty (d_meta data))) (meta row))\<rparr>
    \<and> s' = audited \<lparr>action = ''created'', object_type = ''proxy-host'',
                     object_id = row_id row, audit_meta = MetaCreate data'\<rparr> s"
  using assms by (auto simp: create_audit_def Let_def split: sum.splits)

lemma create_configure_success:
  assumes "create_configure e data row s = (Inr row', data', s')"
  shows "\<exists>s2. create_audit e data row' s2 = (Inr row', data', s') \<and> audit_log s2 = audit_log s"
proof -
  from assms obtain ann r where
    run: "create_audit e data r (annotate (row_id row) ann (called (Configure (row_id row)) s))
            = (Inr row', data', s')"
    by (auto simp: create_configure_def Let_def split: sum.splits option.splits)
  from create_audit_success [OF run] have "r = row'" by simp
  with run have "create_audit e data row' (annotate (row_id row) ann (called (Configure (row_id row)) s))
            = (Inr row', data', s')" by simp
  moreover have "audit_log (annotate (row_id row) ann (called (Configure (row_id row)) s)) = audit_log s"
    by simp
  ultimately show ?thesis by blast
qed

lemma create_success:
  assumes "create e data s = (Inr row, data', s')"
  shows "\<exists>s2. create_audit e (data\<lparr>d_owner_user_id := Some (token_id e)\<rparr>) row s2 = (Inr row, data', s')
               \<and> audit_log s2 = audit_log s"
proof -
  from assms obtain row0 s1 where
    ins: "insertAndFetch (data\<lparr>d_owner_user_id := Some (token_id e)\<rparr>) s = Inr (row0, s1)" and
    run: "create_configure e (data\<lparr>d_owner_user_id := Some (token_id e)\<rparr>) row0 s1 = (Inr row, data', s')"
    by (auto simp: create_def Let_def split: sum.splits)
  from create_configure_success [OF run] insertAndFetch_audit_log [OF ins]
  show ?thesis by auto
qed

lemma create_new_host_resolves:
  "isl (fst (create env_all new_host no_hosts)) = False"
  by (simp add: scenario_defs new_host_def op_defs Let_def)

subsection \<open>What the read queries select\<close>

lemmas query_defs = getAll_def getAll_query_def getCount_def getCount_query_def
  orderBy_domain_names_def

lemma get_resolved:
  assumes "get e data s = Inr (Some row)"
  shows "\<exists>access_data r.
           can e ''proxy_hosts:get'' (ById (q_id data)) = Inr access_data
         \<and> r \<in> set (proxy_hosts s) \<and> \<not> is_deleted r \<and> row_id r = q_id data
         \<and> (permission_visibility access_data \<noteq> ''all'' \<longrightarrow> owner_user_id r = token_id e)
         \<and> row = omit ((fetched_of r (case q_omit data of None \<Rightarrow> [] | Some names \<Rightarrow> names)
                                       (eager_of (q_expand data)))
                          \<lparr>meta := cleanMeta e (meta r)\<rparr>) omissions"
proof -
  from assms obtain access_data fr where
    gate: "can e ''proxy_hosts:get'' (ById (q_id data)) = Inr access_data" and
    qry: "get_query e access_data data s = Some fr" and
    row: "row = omit (fr\<lparr>meta := cleanMeta e (meta fr)\<rparr>) omissions"
    by (auto simp: get_def split: sum.splits option.splits)
  from qry obtain r where
    fst: "first (if permission_visibility access_data \<noteq> ''all''
                 then filter (\<lambda>r. owner_user_id r = token_id e)
                        (filter (\<lambda>r. row_id r = q_id data) (filter (\<lambda>r. \<not> is_deleted r) (proxy_hosts s)))
                 else filter (\<lambda>r. row_id r = q_id data) (filter (\<lambda>r. \<not> is_deleted r) (proxy_hosts s)))
           = Some r" and
    fr: "fr = fetched_of r (case q_omit data of None \<Rightarrow> [] | Some names \<Rightarrow> names) (eager_of (q_expand data))"
    by (auto simp: get_query_def Let_def)
  from first_Some_mem [OF fst]
  have "r \<in> set (proxy_hosts s) \<and> \<not> is_deleted r \<and> row_id r = q_id data
        \<and> (permission_visibility access_data \<noteq> ''all'' \<longrightarrow> owner_user_id r = token_id e)"
    by (auto split: if_splits)
  moreover from row fr have "row = omit ((fetched_of r (case q_omit data of None \<Rightarrow> [] | Some names \<Rightarrow> names)
                                       (eager_of (q_expand data)))
                          \<lparr>meta := cleanMeta e (meta r)\<rparr>) omissions"
    by (simp add: fetched_of_def)
  ultimately show ?thesis using gate by blast
qed

lemma fetched_fields [simp]:
  "row_id (omit (fetched_of r om eg\<lparr>meta := m\<rparr>) names) = row_id r"
  "owner_user_id (omit (fetched_of r om eg\<lparr>meta := m\<rparr>) names) = owner_user_id r"
  "domain_names (omit (fetched_of r om eg\<lparr>meta := m\<rparr>) names) = domain_names r"
  "is_deleted (omit (fetched_of r om eg\<lparr>meta := m\<rparr>) names) = is_deleted r"
  "meta (omit (fetched_of r om eg\<lparr>meta := m\<rparr>) names) = m"
  by (simp_all add: omit_def fetched_of_def)

lemma set_groupBy_id: "set (groupBy_id rs) \<subseteq> set rs"
  by (induction rs rule: groupBy_id.induct) auto

lemma getAll_query_rows:
  assumes "r \<in> set (getAll_query e access_data search_query s)"
  shows "r \<in> set (proxy_hosts s) \<and> \<not> is_deleted r
       \<and> (permission_visibility access_data \<noteq> ''all'' \<longrightarrow> owner_user_id r = token_id e)"
proof -
  from assms have "r \<in> set (groupBy_id
      (case search_query of
         None \<Rightarrow> (if permission_visibility access_data \<noteq> ''all''
                   then filter (\<lambda>r. owner_user_id r = token_id e) (filter (\<lambda>r. \<not> is_deleted r) (proxy_hosts s))
                   else filter (\<lambda>r. \<not> is_deleted r) (proxy_hosts s))
       | Some q \<Rightarrow> filter (\<lambda>r. like e (domain_names r) (''%'' @ q @ ''%''))
                   (if permission_visibility access_data \<noteq> ''all''
                   then filter (\<lambda>r. owner_user_id r = token_id e) (filter (\<lambda>r. \<not> is_deleted r) (proxy_hosts s))
                   else filter (\<lambda>r. \<not> is_deleted r) (proxy_hosts s))))"
    by (simp add: getAll_query_def orderBy_domain_names_def Let_def)
  with set_groupBy_id show ?thesis
    by (fastforce split: option.splits if_splits)
qed

lemma get_host5_as_user:
  "get env_user \<lparr>q_id = 5, q_expand = None, q_omit = None\<rparr> three_hosts
     = Inr (Some (omit ((fetched_of host5 [] None)\<lparr>meta := cleanMeta env_user (meta host5)\<rparr>) omissions))"
  by (simp add: scenario_defs env_user_def op_defs)

lemma getAll_as_user:
  "getAll env_user None None three_hosts
     = Inr [(fetched_of host5 [''is_deleted''] None)\<lparr>meta := cleanMeta env_user (meta host5)\<rparr>]"
  by (simp add: scenario_defs env_user_def op_defs query_defs)

lemma getAll_as_admin:
  "getAll env_all None None three_hosts
     = Inr [(fetched_of host6 [''is_deleted''] None)\<lparr>meta := cleanMeta env_all (meta host6)\<rparr>,
            (fetched_of host5 [''is_deleted''] None)\<lparr>meta := cleanMeta env_all (meta host5)\<rparr>]"
  by (simp add: scenario_defs op_defs query_defs)

lemma get_host5_as_admin:
  "get env_all \<lparr>q_id = 5, q_expand = None, q_omit = None\<rparr> three_hosts
     = Inr (Some (omit ((fetched_of host5 [] None)\<lparr>meta := cleanMeta env_all (meta host5)\<rparr>) omissions))"
  by (simp add: scenario_defs op_defs)

lemma get_host7_as_admin:
  "get env_all \<lparr>q_id = 7, q_expand = None, q_omit = None\<rparr> three_hosts = Inl (ItemNotFoundError 7)"
  by (simp add: scenario_defs op_defs)

lemma get_host5_broken:
  "get env_broken \<lparr>q_id = 5, q_expand = None, q_omit = None\<rparr> three_hosts
     = Inr (Some (omit ((fetched_of host5 [] None)\<lparr>meta := cleanMeta env_broken (meta host5)\<rparr>) omissions))"
  by (simp add: scenario_defs env_broken_def op_defs)

subsection \<open>What delete does to the state\<close>

lemma proxy_hosts_called [simp]: "proxy_hosts (called c s) = proxy_hosts s"
  by (simp add: called_def)

lemma proxy_hosts_audited [simp]: "proxy_hosts (audited entry s) = proxy_hosts s"
  by (simp add: audited_def)

lemma nginx_calls_called [simp]: "nginx_calls (called c s) = nginx_calls s @ [c]"
  by (simp add: called_def)

lemma nginx_calls_audited [simp]: "nginx_calls (audited entry s) = nginx_calls s"
  by (simp add: audited_def)

lemma nginx_calls_soft_delete [simp]: "nginx_calls (soft_delete i s) = nginx_calls s"
  by (simp add: soft_delete_def)

lemma delete_row_table:
  "proxy_hosts (snd (delete_row e d (Some row) s)) = proxy_hosts (soft_delete (row_id row) s)"
  by (simp add: delete_row_def Let_def split: sum.splits)

lemma proxy_hosts_soft_delete:
  "proxy_hosts (soft_delete i s)
     = map (\<lambda>r. if row_id r = i then r\<lparr>is_deleted := True\<rparr> else r) (proxy_hosts s)"
  by (simp add: soft_delete_def)

lemma no_active_row_after_soft_delete:
  "filter (\<lambda>r. row_id r = i) (filter (\<lambda>r. \<not> is_deleted r)
      (map (\<lambda>r. if row_id r = i then r\<lparr>is_deleted := True\<rparr> else r) rs)) = []"
  by (induction rs) auto

lemma get_after_soft_delete:
  assumes "can e ''proxy_hosts:get'' (ById i) = Inr access_data"
    and "proxy_hosts s1 = proxy_hosts (soft_delete i s)"
  shows "get e \<lparr>q_id = i, q_expand = ex, q_omit = om\<rparr> s1 = Inl (ItemNotFoundError i)"
proof -
  have "filter (\<lambda>r. row_id r = i) (filter (\<lambda>r. \<not> is_deleted r) (proxy_hosts s1)) = []"
    unfolding assms(2) proxy_hosts_soft_delete by (rule no_active_row_after_soft_delete)
  then have "get_query e access_data \<lparr>q_id = i, q_expand = ex, q_omit = om\<rparr> s1 = None"
    by (simp add: get_query_def first_def)
  with assms(1) show ?thesis by (simp add: get_def)
qed

lemma get_finds:
  assumes "can e ''proxy_hosts:get'' (ById (q_id data)) = Inr access_data"
    and "r \<in> set (proxy_hosts s)" and "row_id r = q_id data" and "\<not> is_deleted r"
    and "permission_visibility access_data = ''all'' \<or> owner_user_id r = token_id e"
  shows "\<exists>row. get e data s = Inr (Some row) \<and> row_id row = q_id data"
proof -
  let ?rows = "if permission_visibility access_data \<noteq> ''all''
                 then filter (\<lambda>r. owner_user_id r = token_id e)
                        (filter (\<lambda>r. row_id r = q_id data) (filter (\<lambda>r. \<not> is_deleted r) (proxy_hosts s)))
                 else filter (\<lambda>r. row_id r = q_id data) (filter (\<lambda>r. \<not> is_deleted r) (proxy_hosts s))"
  from assms have "r \<in> set ?rows" by auto
  then have "?rows \<noteq> []" by auto
  then obtain r' where f: "first ?rows = Some r'"
    by (cases ?rows) (auto simp: first_def)
  from first_Some_mem [OF f] have "row_id r' = q_id data" by (auto split: if_splits)
  with f assms(1) show ?thesis
    by (simp add: get_def get_query_def Let_def)
qed

lemma delete_calls:
  "nginx_calls (snd (delete_row e d (Some row) s))
     = nginx_calls s @ (case deleteConfig e row of
                          Inl err \<Rightarrow> [DeleteConfig (row_id row)]
                        | Inr _ \<Rightarrow> [DeleteConfig (row_id row), Reload])"
  by (simp add: delete_row_def Let_def split: sum.splits)

subsection \<open>The id check of update\<close>

lemma update_row_mismatch:
  "row_id row \<noteq> d_id data \<Longrightarrow>
   update_row e data row s
     = (Inl (InternalValidationError
               (''Proxy Host could not be updated, IDs do not match: ''
                @ string_of_nat (row_id row) @ '' !== '' @ string_of_nat (d_id data))), s)"
  by (simp add: update_row_def)

lemma update_row_match:
  "row_id row = d_id data \<Longrightarrow> fst (update_row e data row s) \<noteq> Inl (InternalValidationError msg)"
  by (simp add: update_row_def Let_def split: prod.splits option.splits sum.splits)

subsection \<open>The hostname check\<close>

lemma all_resolved:
  "\<forall>n \<in> set names. f n = Inr (g n) \<Longrightarrow>
   rejections (map f names) = [] \<and> resolutions (map f names) = map g names"
  by (induction names) (auto simp: rejections_def resolutions_def)

lemma promise_all_resolved:
  "\<forall>n \<in> set names. f n = Inr (g n) \<Longrightarrow>
   promise_all first_in_time (map f names) = Inr (map g names)"
  using all_resolved [of names f g] by (simp add: promise_all_def)

lemma check_results_clear:
  "\<forall>n \<in> set names. \<not> is_taken (g n) \<Longrightarrow> check_results (map g names) = Inr ()"
  by (induction names) auto

lemma check_results_first:
  "\<forall>m \<in> set pre. \<not> is_taken (g m) \<Longrightarrow> is_taken (g n) \<Longrightarrow>
   check_results (map g (pre @ n # post))
     = Inl (ValidationError (hostname (g n) @ '' is already in use''))"
  by (induction pre) auto

lemma first_taken_split:
  "\<exists>n \<in> set names. P n \<Longrightarrow>
   \<exists>pre n post. names = pre @ n # post \<and> (\<forall>m \<in> set pre. \<not> P m) \<and> P n"
  by (metis split_list_first_prop)

lemma check_results_error:
  "check_results rs = Inl err \<Longrightarrow> \<exists>m. err = ValidationError m"
  by (induction rs) (auto split: if_splits)

lemma update_check_error:
  "update_check e s data = Inl err \<Longrightarrow> (\<exists>m. err = ValidationError m) \<or> (\<exists>x. err = Rejected x)"
  by (auto simp: update_check_def split: option.splits sum.splits dest: check_results_error)

lemma hostname_isHostnameTaken_spec [simp]:
  "hostname (isHostnameTaken_spec s name ignore_type ignore_id) = name"
  by (simp add: isHostnameTaken_spec_def)

lemma taken_excluding_own_record:
  assumes "\<forall>h \<in> set (other_hosts s). h_type h \<noteq> ''proxy''"
  shows "isHostnameTaken_spec s name (Some ''proxy'') (Some i)
       = isHostnameTaken_spec (s\<lparr>proxy_hosts := filter (\<lambda>r. row_id r \<noteq> i) (proxy_hosts s)\<rparr>)
           name None None"
proof -
  from assms have other: "h \<in> set (other_hosts s) \<Longrightarrow> ''proxy'' \<noteq> h_type h" for h
    by auto
  show ?thesis
    by (auto simp: isHostnameTaken_spec_def registry_def excluded_def list_ex_iff dest: other)
qed

lemma get_no_validation_error: "get e data s \<noteq> Inl (ValidationError msg)"
  by (simp add: get_def split: sum.splits option.splits)

lemma update_row_no_validation_error:
  "fst (update_row e data row s) \<noteq> Inl (ValidationError msg)"
  by (simp add: update_row_def Let_def split: prod.splits option.splits sum.splits)

lemma update_after_check:
  assumes "update_check e s data = Inr ()"
  shows "fst (update e data s) \<noteq> Inl (ValidationError msg)"
proof (cases "can e ''proxy_hosts:update'' (ById (d_id data))")
  case (Inl err)
  then show ?thesis by (simp add: update_def)
next
  case gate: (Inr access_data)
  show ?thesis
  proof (cases "get e \<lparr>q_id = d_id data, q_expand = None, q_omit = None\<rparr> s")
    case (Inl err)
    with get_no_validation_error [of e _ s msg] gate assms show ?thesis
      by (auto simp: update_def)
  next
    case (Inr fetched_row)
    with gate assms update_row_no_validation_error [of e data _ s msg] show ?thesis
      by (cases fetched_row) (simp_all add: update_def)
  qed
qed

lemma update_runs_check:
  assumes "can e ''proxy_hosts:update'' (ById (d_id data)) = Inr access_data"
    and "update_check e s data = Inl err"
  shows "update e data s = (Inl err, s)"
  using assms by (simp add: update_def)

lemma update_validation_error_from_check:
  assumes "fst (update e data s) = Inl (ValidationError msg)"
  shows "update_check e s data = Inl (ValidationError msg)"
proof (cases "can e ''proxy_hosts:update'' (ById (d_id data))")
  case (Inl err)
  with assms show ?thesis by (simp add: update_def)
next
  case gate: (Inr access_data)
  show ?thesis
  proof (cases "update_check e s data")
    case (Inl err)
    with update_runs_check [OF gate Inl] assms show ?thesis by simp
  next
    case (Inr u)
    with update_after_check [of e s data msg] assms show ?thesis by simp
  qed
qed

lemma check_results_taken:
  "check_results (map g names) = Inl err \<Longrightarrow>
   \<exists>n \<in> set names. is_taken (g n) \<and> err = ValidationError (hostname (g n) @ '' is already in use'')"
  by (induction names) (auto split: if_splits)

section \<open>C1: update's hostname check\<close>

text \<open>
  C1. An update call whose payload carries domain names runs the hostname check
  before anything is read or written, and rejects with the check's error, the
  state untouched, when the check fails. With the lookup the spec describes, that
  check is the check create runs on the same names against the table without the
  record identified by the payload's id (no host of another type being filed as a
  proxy host): update rejects with a \<open>ValidationError\<close> exactly when that check of
  create does, and with the same one. So a \<open>ValidationError\<close> of update always
  names a requested name that an active record other than the host's own claims;
  in particular, when a host resubmits its own current names and no other active
  host record claims one of them, the check passes and update does not reject
  with \<open>ValidationError\<close>.
\<close>

theorem update_check_excludes_own_record:
  "(isHostnameTaken e = (\<lambda>s name ignore_type ignore_id.
                           Inr (isHostnameTaken_spec s name ignore_type ignore_id))
      \<and> d_domain_names data = Some names
      \<and> (\<forall>h \<in> set (other_hosts s). h_type h \<noteq> ''proxy'')
     \<longrightarrow> update_check e s data
         = create_check e (s\<lparr>proxy_hosts := filter (\<lambda>r. row_id r \<noteq> d_id data) (proxy_hosts s)\<rparr>) data)
   \<and> (isHostnameTaken e = (\<lambda>s name ignore_type ignore_id.
                           Inr (isHostnameTaken_spec s name ignore_type ignore_id))
      \<and> r \<in> set (proxy_hosts s) \<and> row_id r = d_id data
      \<and> d_domain_names data = Some (domain_names r)
      \<and> (\<forall>h \<in> set (registry s).
            \<not> h_is_deleted h \<and> \<not> (h_type h = ''proxy'' \<and> h_id h = d_id data)
            \<longrightarrow> set (h_domain_names h) \<inter> set (domain_names r) = {})
     \<longrightarrow> update_check e s data = Inr ()
       \<and> (\<forall>msg. fst (update e data s) \<noteq> Inl (ValidationError msg)))
   \<and> (can e ''proxy_hosts:update'' (ById (d_id data)) = Inr access_data
     \<longrightarrow> (\<forall>err. update_check e s data = Inl err \<longrightarrow> update e data s = (Inl err, s)))
   \<and> (can e ''proxy_hosts:update'' (ById (d_id data)) = Inr access_data
      \<and> isHostnameTaken e = (\<lambda>s name ignore_type ignore_id.
                           Inr (isHostnameTaken_spec s name ignore_type ignore_id))
      \<and> d_domain_names data = Some names
      \<and> (\<forall>h \<in> set (other_hosts s). h_type h \<noteq> ''proxy'')
     \<longrightarrow> (\<forall>msg. fst (update e data s) = Inl (ValidationError msg)
              \<longleftrightarrow> create_check e
                    (s\<lparr>proxy_hosts := filter (\<lambda>r. row_id r \<noteq> d_id data) (proxy_hosts s)\<rparr>) data
                  = Inl (ValidationError msg)))
   \<and> (isHostnameTaken e = (\<lambda>s name ignore_type ignore_id.
                           Inr (isHostnameTaken_spec s name ignore_type ignore_id))
      \<and> d_domain_names data = Some names
      \<and> fst (update e data s) = Inl (ValidationError msg)
     \<longrightarrow> (\<exists>n \<in> set names. \<exists>h \<in> set (registry s).
            msg = n @ '' is already in use''
          \<and> \<not> h_is_deleted h \<and> n \<in> set (h_domain_names h)
          \<and> \<not> (h_type h = ''proxy'' \<and> h_id h = d_id data)))"
proof -
  have same: "update_check e s data
         = create_check e (s\<lparr>proxy_hosts := filter (\<lambda>r. row_id r \<noteq> d_id data) (proxy_hosts s)\<rparr>) data"
    if "isHostnameTaken e = (\<lambda>s name ignore_type ignore_id.
                           Inr (isHostnameTaken_spec s name ignore_type ignore_id))
      \<and> d_domain_names data = Some names
      \<and> (\<forall>h \<in> set (other_hosts s). h_type h \<noteq> ''proxy'')"
    using that by (simp add: update_check_def create_check_def taken_excluding_own_record)
  have own: "update_check e s data = Inr ()
       \<and> (\<forall>msg. fst (update e data s) \<noteq> Inl (ValidationError msg))"
    if a: "isHostnameTaken e = (\<lambda>s name ignore_type ignore_id.
                           Inr (isHostnameTaken_spec s name ignore_type ignore_id))
      \<and> r \<in> set (proxy_hosts s) \<and> row_id r = d_id data
      \<and> d_domain_names data = Some (domain_names r)
      \<and> (\<forall>h \<in> set (registry s).
            \<not> h_is_deleted h \<and> \<not> (h_type h = ''proxy'' \<and> h_id h = d_id data)
            \<longrightarrow> set (h_domain_names h) \<inter> set (domain_names r) = {})"
  proof -
    let ?g = "\<lambda>n. isHostnameTaken_spec s n (Some ''proxy'') (Some (d_id data))"
    from a have free: "\<forall>n \<in> set (domain_names r). \<not> is_taken (?g n)"
      by (auto simp: isHostnameTaken_spec_def excluded_def list_ex_iff)
    from a have "promise_all (earliest e)
        (map (\<lambda>n. isHostnameTaken e s n (Some ''proxy'') (Some (d_id data))) (domain_names r))
        = Inr (map ?g (domain_names r))"
      by (intro promise_all_resolved) simp
    with check_results_clear [of "domain_names r" ?g, OF free] a
    have ok: "update_check e s data = Inr ()"
      by (simp add: update_check_def)
    with update_after_check [OF ok] show ?thesis by simp
  qed
  have runs: "\<forall>err. update_check e s data = Inl err \<longrightarrow> update e data s = (Inl err, s)"
    if "can e ''proxy_hosts:update'' (ById (d_id data)) = Inr access_data"
    using update_runs_check [OF that] by blast
  have exactly: "\<forall>msg. fst (update e data s) = Inl (ValidationError msg)
              \<longleftrightarrow> create_check e
                    (s\<lparr>proxy_hosts := filter (\<lambda>r. row_id r \<noteq> d_id data) (proxy_hosts s)\<rparr>) data
                  = Inl (ValidationError msg)"
    if a: "can e ''proxy_hosts:update'' (ById (d_id data)) = Inr access_data
      \<and> isHostnameTaken e = (\<lambda>s name ignore_type ignore_id.
                           Inr (isHostnameTaken_spec s name ignore_type ignore_id))
      \<and> d_domain_names data = Some names
      \<and> (\<forall>h \<in> set (other_hosts s). h_type h \<noteq> ''proxy'')"
  proof (intro allI iffI)
    fix msg
    assume "fst (update e data s) = Inl (ValidationError msg)"
    from update_validation_error_from_check [OF this] same a
    show "create_check e
            (s\<lparr>proxy_hosts := filter (\<lambda>r. row_id r \<noteq> d_id data) (proxy_hosts s)\<rparr>) data
          = Inl (ValidationError msg)"
      by simp
  next
    fix msg
    assume "create_check e
            (s\<lparr>proxy_hosts := filter (\<lambda>r. row_id r \<noteq> d_id data) (proxy_hosts s)\<rparr>) data
          = Inl (ValidationError msg)"
    with same a have "update_check e s data = Inl (ValidationError msg)" by simp
    with update_runs_check [of e data access_data s] a
    show "fst (update e data s) = Inl (ValidationError msg)" by simp
  qed
  have other: "\<exists>n \<in> set names. \<exists>h \<in> set (registry s).
            msg = n @ '' is already in use''
          \<and> \<not> h_is_deleted h \<and> n \<in> set (h_domain_names h)
          \<and> \<not> (h_type h = ''proxy'' \<and> h_id h = d_id data)"
    if a: "isHostnameTaken e = (\<lambda>s name ignore_type ignore_id.
                           Inr (isHostnameTaken_spec s name ignore_type ignore_id))
      \<and> d_domain_names data = Some names
      \<and> fst (update e data s) = Inl (ValidationError msg)"
  proof -
    let ?g = "\<lambda>n. isHostnameTaken_spec s n (Some ''proxy'') (Some (d_id data))"
    from a update_validation_error_from_check [of e data s msg]
    have chk: "update_check e s data = Inl (ValidationError msg)" by simp
    from a have "promise_all (earliest e)
        (map (\<lambda>n. isHostnameTaken e s n (Some ''proxy'') (Some (d_id data))) names)
        = Inr (map ?g names)"
      by (intro promise_all_resolved) simp
    with chk a have "check_results (map ?g names) = Inl (ValidationError msg)"
      by (simp add: update_check_def)
    from check_results_taken [OF this] obtain n where
      n: "n \<in> set names" "is_taken (?g n)" "msg = n @ '' is already in use''"
      by auto
    from n(2) obtain h where "h \<in> set (registry s)" "\<not> h_is_deleted h"
      "n \<in> set (h_domain_names h)" "\<not> (h_type h = ''proxy'' \<and> h_id h = d_id data)"
      by (auto simp: isHostnameTaken_spec_def excluded_def list_ex_iff)
    with n show ?thesis by blast
  qed
  from same own runs exactly other show ?thesis by blast
qed

theorem update_check_excludes_own_record_witness:
  "update_check env_all three_hosts keep_names5
     = create_check env_all
         (three_hosts\<lparr>proxy_hosts := filter (\<lambda>r. row_id r \<noteq> d_id keep_names5)
                                          (proxy_hosts three_hosts)\<rparr>) keep_names5
   \<and> create_check env_all three_hosts keep_names5
       = Inl (ValidationError ''b.example.com is already in use'')
   \<and> host5 \<in> set (proxy_hosts three_hosts) \<and> row_id host5 = d_id keep_names5
   \<and> d_domain_names keep_names5 = Some (domain_names host5)
   \<and> update_check env_all three_hosts keep_names5 = Inr ()
   \<and> fst (update env_all keep_names5 three_hosts)
       \<noteq> Inl (ValidationError ''b.example.com is already in use'')
   \<and> create_check env_all
         (three_hosts\<lparr>proxy_hosts := filter (\<lambda>r. row_id r \<noteq> d_id grab_names5)
                                          (proxy_hosts three_hosts)\<rparr>) grab_names5
       = Inl (ValidationError ''a.example.com is already in use'')
   \<and> update env_all grab_names5 three_hosts
       = (Inl (ValidationError ''a.example.com is already in use''), three_hosts)"
proof -
  have own: "create_check env_all three_hosts keep_names5
      = Inl (ValidationError ''b.example.com is already in use'')"
    by (simp add: scenario_defs keep_names5_def op_defs)
  have spec: "isHostnameTaken env_all = (\<lambda>s name ignore_type ignore_id.
                           Inr (isHostnameTaken_spec s name ignore_type ignore_id))"
    by (simp add: env_all_def)
  have gate: "can env_all ''proxy_hosts:update'' (ById (d_id grab_names5))
      = Inr \<lparr>permission_visibility = ''all''\<rparr>"
    by (simp add: env_all_def)
  have present: "d_domain_names keep_names5 = Some [''b.example.com'']
      \<and> (\<forall>h \<in> set (other_hosts three_hosts). h_type h \<noteq> ''proxy'')"
    by (simp add: three_hosts_def keep_names5_def)
  have present': "d_domain_names grab_names5 = Some [''b.example.com'', ''a.example.com'']
      \<and> (\<forall>h \<in> set (other_hosts three_hosts). h_type h \<noteq> ''proxy'')"
    by (simp add: three_hosts_def grab_names5_def)
  have unique: "host5 \<in> set (proxy_hosts three_hosts) \<and> row_id host5 = d_id keep_names5
      \<and> d_domain_names keep_names5 = Some (domain_names host5)
      \<and> (\<forall>h \<in> set (registry three_hosts).
            \<not> h_is_deleted h \<and> \<not> (h_type h = ''proxy'' \<and> h_id h = d_id keep_names5)
            \<longrightarrow> set (h_domain_names h) \<inter> set (domain_names host5) = {})"
    by (simp add: three_hosts_def host5_def host6_def host7_def keep_names5_def registry_def)
  have held: "create_check env_all
         (three_hosts\<lparr>proxy_hosts := filter (\<lambda>r. row_id r \<noteq> d_id grab_names5)
                                          (proxy_hosts three_hosts)\<rparr>) grab_names5
       = Inl (ValidationError ''a.example.com is already in use'')"
    by (simp add: scenario_defs grab_names5_def op_defs)
  note claim = update_check_excludes_own_record
    [of env_all keep_names5 "[''b.example.com'']" three_hosts host5]
  note claim' = update_check_excludes_own_record
    [of env_all grab_names5 "[''b.example.com'', ''a.example.com'']" three_hosts host5
        "\<lparr>permission_visibility = ''all''\<rparr>"]
  from claim spec present have same: "update_check env_all three_hosts keep_names5
     = create_check env_all
         (three_hosts\<lparr>proxy_hosts := filter (\<lambda>r. row_id r \<noteq> d_id keep_names5)
                                          (proxy_hosts three_hosts)\<rparr>) keep_names5"
    by blast
  from claim spec unique have passes: "update_check env_all three_hosts keep_names5 = Inr ()
    \<and> fst (update env_all keep_names5 three_hosts)
        \<noteq> Inl (ValidationError ''b.example.com is already in use'')"
    by blast
  from claim' spec present' have "update_check env_all three_hosts grab_names5
     = create_check env_all
         (three_hosts\<lparr>proxy_hosts := filter (\<lambda>r. row_id r \<noteq> d_id grab_names5)
                                          (proxy_hosts three_hosts)\<rparr>) grab_names5"
    by blast
  with held have "update_check env_all three_hosts grab_names5
      = Inl (ValidationError ''a.example.com is already in use'')"
    by simp
  with claim' gate have rejects: "update env_all grab_names5 three_hosts
       = (Inl (ValidationError ''a.example.com is already in use''), three_hosts)"
    by blast
  from own same passes unique held rejects show ?thesis by blast
qed

section \<open>C2: the meta recorded by create\<close>




section \<open>C3: delete is not idempotent for its caller\<close>

text \<open>
  C3. For a record that exists, is active and is visible to the actor, with the
  gate, the publisher and the audit recorder doing their part, delete resolves
  with \<open>True\<close>; and after a delete that resolved with \<open>True\<close>, a second delete of the
  same id rejects with \<open>ItemNotFoundError\<close> and changes nothing, because the record
  is now soft-deleted and get selects active rows only.
\<close>

theorem delete_twice:
  "(can e ''proxy_hosts:delete'' (ById (del_id d)) = Inr access_data
      \<and> can e ''proxy_hosts:get'' (ById (del_id d)) = Inr access_data'
      \<and> r \<in> set (proxy_hosts s) \<and> row_id r = del_id d \<and> \<not> is_deleted r
      \<and> (permission_visibility access_data' = ''all'' \<or> owner_user_id r = token_id e)
      \<and> (\<forall>row. deleteConfig e row = Inr ()) \<and> reload e = Inr ()
      \<and> (\<forall>entry. audit_add e entry = Inr ())
     \<longrightarrow> fst (delete e d s) = Inr True)
   \<and> (fst (delete e d s) = Inr True
     \<longrightarrow> delete e d (snd (delete e d s)) = (Inl (ItemNotFoundError (del_id d)), snd (delete e d s)))"
proof (intro conjI impI)
  assume a: "can e ''proxy_hosts:delete'' (ById (del_id d)) = Inr access_data
      \<and> can e ''proxy_hosts:get'' (ById (del_id d)) = Inr access_data'
      \<and> r \<in> set (proxy_hosts s) \<and> row_id r = del_id d \<and> \<not> is_deleted r
      \<and> (permission_visibility access_data' = ''all'' \<or> owner_user_id r = token_id e)
      \<and> (\<forall>row. deleteConfig e row = Inr ()) \<and> reload e = Inr ()
      \<and> (\<forall>entry. audit_add e entry = Inr ())"
  then obtain row where
    "get e \<lparr>q_id = del_id d, q_expand = None, q_omit = None\<rparr> s = Inr (Some row)"
    using get_finds [of e "\<lparr>q_id = del_id d, q_expand = None, q_omit = None\<rparr>" access_data' r s]
    by auto
  with a show "fst (delete e d s) = Inr True"
    by (simp add: delete_def delete_row_def Let_def)
next
  assume ok: "fst (delete e d s) = Inr True"
  then obtain access_data access_data' row where
    gate: "can e ''proxy_hosts:delete'' (ById (del_id d)) = Inr access_data" and
    got: "get e \<lparr>q_id = del_id d, q_expand = None, q_omit = None\<rparr> s = Inr (Some row)" and
    run: "delete e d s = delete_row e d (Some row) s"
    by (auto simp: delete_def delete_row_def split: sum.splits option.splits)
  from get_resolved [OF got] obtain ad where
    gate': "can e ''proxy_hosts:get'' (ById (del_id d)) = Inr ad" and id: "row_id row = del_id d"
    by auto
  have "proxy_hosts (snd (delete e d s)) = proxy_hosts (soft_delete (del_id d) s)"
    using delete_row_table [of e d row s] run id by simp
  from get_after_soft_delete [OF gate' this]
  have "get e \<lparr>q_id = del_id d, q_expand = None, q_omit = None\<rparr> (snd (delete e d s))
          = Inl (ItemNotFoundError (del_id d))" .
  with gate show "delete e d (snd (delete e d s)) = (Inl (ItemNotFoundError (del_id d)), snd (delete e d s))"
    by (simp add: delete_def)
qed


theorem delete_twice_witness:
  "host5 \<in> set (proxy_hosts three_hosts) \<and> row_id host5 = 5 \<and> \<not> is_deleted host5
   \<and> fst (delete env_all \<lparr>del_id = 5, reason = None\<rparr> three_hosts) = Inr True
   \<and> delete env_all \<lparr>del_id = 5, reason = None\<rparr>
         (snd (delete env_all \<lparr>del_id = 5, reason = None\<rparr> three_hosts))
       = (Inl (ItemNotFoundError 5), snd (delete env_all \<lparr>del_id = 5, reason = None\<rparr> three_hosts))"
  using delete_twice [of env_all "\<lparr>del_id = 5, reason = None\<rparr>" "\<lparr>permission_visibility = ''all''\<rparr>"
      "\<lparr>permission_visibility = ''all''\<rparr>" host5 three_hosts]
  by (simp add: env_all_def three_hosts_def host5_def)

section \<open>C4: create reports the first taken name\<close>

text \<open>
  C4. When the gate lets create pass, every lookup resolves with an answer for the
  name it was asked about, and at least one of the requested names is taken,
  create rejects with the one \<open>ValidationError\<close> that names the first taken name in
  the order of the request: the names before it are free, and the payload and the
  state are left as they were.
\<close>

theorem create_reports_first_taken_name:
  assumes "can e ''proxy_hosts:create'' (ByPayload data) = Inr access_data"
    and "d_domain_names data = Some names"
    and "\<forall>n \<in> set names. isHostnameTaken e s n None None = Inr (result n)"
    and "\<forall>n \<in> set names. hostname (result n) = n"
    and "\<exists>n \<in> set names. is_taken (result n)"
  shows "\<exists>pre n post.
           names = pre @ n # post
         \<and> (\<forall>m \<in> set pre. \<not> is_taken (result m))
         \<and> is_taken (result n)
         \<and> create e data s = (Inl (ValidationError (n @ '' is already in use'')), data, s)"
proof -
  from first_taken_split [OF assms(5)] obtain pre n post where
    split: "names = pre @ n # post" and
    clear: "\<forall>m \<in> set pre. \<not> is_taken (result m)" and
    taken: "is_taken (result n)"
    by blast
  from promise_all_resolved [OF assms(3)]
  have "promise_all (earliest e) (map (\<lambda>name. isHostnameTaken e s name None None) names)
          = Inr (map result names)" .
  moreover from assms(4) split have "hostname (result n) = n" by simp
  ultimately have "create_check e s data = Inl (ValidationError (n @ '' is already in use''))"
    using check_results_first [of pre result n post, OF clear taken]
    by (simp add: create_check_def assms(2) split)
  with assms(1) have "create e data s = (Inl (ValidationError (n @ '' is already in use'')), data, s)"
    by (simp add: create_def)
  with split clear taken show ?thesis by blast
qed

theorem create_reports_first_taken_name_witness:
  "is_taken (isHostnameTaken_spec three_hosts ''n.example.com'' None None) = False
   \<and> is_taken (isHostnameTaken_spec three_hosts ''a.example.com'' None None)
   \<and> is_taken (isHostnameTaken_spec three_hosts ''r.example.com'' None None)
   \<and> create env_all taken_names three_hosts
       = (Inl (ValidationError ''a.example.com is already in use''), taken_names, three_hosts)"
proof -
  let ?result = "\<lambda>n. isHostnameTaken_spec three_hosts n None None"
  have t: "is_taken (?result ''n.example.com'') = False"
    "is_taken (?result ''a.example.com'')"
    "is_taken (?result ''r.example.com'')"
    by (simp_all add: isHostnameTaken_spec_def registry_def excluded_def three_hosts_def
          host5_def host6_def host7_def)
  have gate: "can env_all ''proxy_hosts:create'' (ByPayload taken_names) = Inr \<lparr>permission_visibility = ''all''\<rparr>"
    by (simp add: env_all_def)
  have names: "d_domain_names taken_names = Some [''n.example.com'', ''a.example.com'', ''r.example.com'']"
    by (simp add: taken_names_def)
  have resolve: "\<forall>n \<in> set [''n.example.com'', ''a.example.com'', ''r.example.com''].
      isHostnameTaken env_all three_hosts n None None = Inr (?result n)"
    by (simp add: env_all_def)
  have echo: "\<forall>n \<in> set [''n.example.com'', ''a.example.com'', ''r.example.com'']. hostname (?result n) = n"
    by simp
  have some: "\<exists>n \<in> set [''n.example.com'', ''a.example.com'', ''r.example.com'']. is_taken (?result n)"
    using t(2) by simp
  from create_reports_first_taken_name [OF gate names resolve echo some] obtain pre n post where
    split: "[''n.example.com'', ''a.example.com'', ''r.example.com''] = pre @ n # post" and
    clear: "\<forall>m \<in> set pre. \<not> is_taken (?result m)" and
    taken: "is_taken (?result n)" and
    run: "create env_all taken_names three_hosts
            = (Inl (ValidationError (n @ '' is already in use'')), taken_names, three_hosts)"
    by auto
  have "n = ''a.example.com''"
  proof (cases pre)
    case Nil
    with split taken t(1) show ?thesis by simp
  next
    case (Cons a pre')
    note outer = Cons
    show ?thesis
    proof (cases pre')
      case Nil
      with split outer show ?thesis by simp
    next
      case (Cons b pre'')
      with split outer have "''a.example.com'' \<in> set pre" by auto
      with clear t(2) show ?thesis by blast
    qed
  qed
  with run t show ?thesis by simp
qed

section \<open>C5: visibility scope\<close>

text \<open>
  C5. For an actor whose authorization result carries a visibility scope other
  than \<^verbatim>\<open>all\<close>, the row get resolves with and every row getAll resolves with is
  owned by the actor; and when getCount is given a visibility other than \<^verbatim>\<open>all\<close>,
  every row its query counts is owned by the given user, the count being the
  number of active rows of that user.
\<close>

theorem visibility_scope:
  "(can e ''proxy_hosts:get'' (ById (q_id data)) = Inr access_data
      \<and> permission_visibility access_data \<noteq> ''all''
      \<and> get e data s = Inr (Some row)
     \<longrightarrow> owner_user_id row = token_id e)
   \<and> (can e ''proxy_hosts:list'' NoResource = Inr access_data'
      \<and> permission_visibility access_data' \<noteq> ''all''
      \<and> getAll e expand search_query s = Inr rows
     \<longrightarrow> (\<forall>r \<in> set rows. owner_user_id r = token_id e))
   \<and> (visibility \<noteq> ''all''
     \<longrightarrow> (\<forall>r \<in> set (getCount_query user_id visibility s). owner_user_id r = user_id)
       \<and> getCount user_id visibility s
           = int (length (filter (\<lambda>r. \<not> is_deleted r \<and> owner_user_id r = user_id) (proxy_hosts s))))"
proof (intro conjI impI)
  assume "can e ''proxy_hosts:get'' (ById (q_id data)) = Inr access_data
      \<and> permission_visibility access_data \<noteq> ''all'' \<and> get e data s = Inr (Some row)"
  then show "owner_user_id row = token_id e"
    using get_resolved [of e data s row] by auto
next
  assume a: "can e ''proxy_hosts:list'' NoResource = Inr access_data'
      \<and> permission_visibility access_data' \<noteq> ''all''
      \<and> getAll e expand search_query s = Inr rows"
  then have "rows = map (\<lambda>r. (fetched_of r [''is_deleted''] (eager_of expand))\<lparr>meta := cleanMeta e (meta r)\<rparr>)
                   (getAll_query e access_data' search_query s)"
    by (auto simp: getAll_def)
  with a getAll_query_rows [of _ e access_data' search_query s]
  show "\<forall>r \<in> set rows. owner_user_id r = token_id e"
    by (auto simp: fetched_of_def)
next
  assume "visibility \<noteq> ''all''"
  then show "\<forall>r \<in> set (getCount_query user_id visibility s). owner_user_id r = user_id"
    by (simp add: getCount_query_def)
next
  assume "visibility \<noteq> ''all''"
  then show "getCount user_id visibility s
           = int (length (filter (\<lambda>r. \<not> is_deleted r \<and> owner_user_id r = user_id) (proxy_hosts s)))"
    by (simp add: getCount_def getCount_query_def conj_commute)
qed


theorem visibility_scope_witness:
  "(\<exists>row. get env_user \<lparr>q_id = 5, q_expand = None, q_omit = None\<rparr> three_hosts = Inr (Some row)
        \<and> owner_user_id row = token_id env_user)
   \<and> (\<exists>rows. getAll env_user None None three_hosts = Inr rows \<and> length rows = 1
        \<and> list_all (\<lambda>r. owner_user_id r = token_id env_user) rows)
   \<and> getCount 1 ''user'' three_hosts = 1
   \<and> list_all (\<lambda>r. owner_user_id r = 1) (getCount_query 1 ''user'' three_hosts)"
  using visibility_scope [of env_user "\<lparr>q_id = 5, q_expand = None, q_omit = None\<rparr>"
      "\<lparr>permission_visibility = ''user''\<rparr>" three_hosts
      "omit ((fetched_of host5 [] None)\<lparr>meta := cleanMeta env_user (meta host5)\<rparr>) omissions"
      "\<lparr>permission_visibility = ''user''\<rparr>" None None
      "[(fetched_of host5 [''is_deleted''] None)\<lparr>meta := cleanMeta env_user (meta host5)\<rparr>]"
      "''user''" 1]
    get_host5_as_user getAll_as_user
  by (simp add: env_user_def env_all_def list_all_iff three_hosts_def host5_def host6_def host7_def)

section \<open>C6: getAll returns active rows in ascending order\<close>

text \<open>
  C6. Every sequence getAll resolves with contains no soft-deleted row, and its
  rows are in ascending order of \<^verbatim>\<open>domain_names\<close>, compared by the storage
  engine's collation of that column.
\<close>

theorem getAll_active_and_ordered:
  assumes "getAll e expand search_query s = Inr rows"
  shows "(\<forall>r \<in> set rows. \<not> is_deleted r)
       \<and> sorted (map (\<lambda>r. order_key e (domain_names r)) rows)"
proof -
  from assms obtain access_data where
    rows: "rows = map (\<lambda>r. (fetched_of r [''is_deleted''] (eager_of expand))\<lparr>meta := cleanMeta e (meta r)\<rparr>)
                   (getAll_query e access_data search_query s)"
    by (auto simp: getAll_def split: sum.splits)
  have "\<forall>r \<in> set rows. \<not> is_deleted r"
    using getAll_query_rows [of _ e access_data search_query s]
    by (auto simp: rows fetched_of_def)
  moreover have "map (\<lambda>r. order_key e (domain_names r)) rows
      = map (\<lambda>r. order_key e (domain_names r)) (getAll_query e access_data search_query s)"
    by (simp add: rows fetched_of_def comp_def)
  then have "sorted (map (\<lambda>r. order_key e (domain_names r)) rows)"
    by (simp add: getAll_query_def orderBy_domain_names_def Let_def)
  ultimately show ?thesis by simp
qed

theorem getAll_active_and_ordered_witness:
  "map row_id (projr (getAll env_all None None three_hosts)) = [6, 5]
   \<and> map domain_names (projr (getAll env_all None None three_hosts))
       = [[''a.example.com''], [''b.example.com'']]
   \<and> list_all (\<lambda>r. \<not> is_deleted r) (projr (getAll env_all None None three_hosts))
   \<and> sorted (map (\<lambda>r. order_key env_all (domain_names r)) (projr (getAll env_all None None three_hosts)))"
  using getAll_active_and_ordered [OF getAll_as_admin]
  by (simp add: getAll_as_admin fetched_of_def host5_def host6_def list_all_iff)

section \<open>C7: reload only after the configuration is removed\<close>

text \<open>
  C7. In every run of delete, the calls made to the publisher are none, or
  \<open>deleteConfig\<close> alone, or \<open>deleteConfig\<close> followed by \<open>reload\<close>; \<open>reload\<close> is called
  only when \<open>deleteConfig\<close> has succeeded, and directly after it. When \<open>deleteConfig\<close>
  fails, delete rejects with that failure and \<open>reload\<close> is never called.
\<close>

theorem reload_only_after_deleteConfig:
  "(\<exists>new. nginx_calls (snd (delete e d s)) = nginx_calls s @ new
       \<and> (Reload \<in> set new \<longrightarrow>
            (\<exists>row. get e \<lparr>q_id = del_id d, q_expand = None, q_omit = None\<rparr> s = Inr (Some row)
                 \<and> deleteConfig e row = Inr ()
                 \<and> new = [DeleteConfig (row_id row), Reload])))
   \<and> (can e ''proxy_hosts:delete'' (ById (del_id d)) = Inr access_data
      \<and> get e \<lparr>q_id = del_id d, q_expand = None, q_omit = None\<rparr> s = Inr (Some row)
      \<and> deleteConfig e row = Inl err
     \<longrightarrow> delete e d s
           = (Inl (Rejected err), called (DeleteConfig (row_id row)) (soft_delete (row_id row) s))
         \<and> nginx_calls (snd (delete e d s)) = nginx_calls s @ [DeleteConfig (row_id row)])"
proof (intro conjI impI)
  show "\<exists>new. nginx_calls (snd (delete e d s)) = nginx_calls s @ new
       \<and> (Reload \<in> set new \<longrightarrow>
            (\<exists>row. get e \<lparr>q_id = del_id d, q_expand = None, q_omit = None\<rparr> s = Inr (Some row)
                 \<and> deleteConfig e row = Inr ()
                 \<and> new = [DeleteConfig (row_id row), Reload]))"
  proof (cases "can e ''proxy_hosts:delete'' (ById (del_id d))")
    case (Inl err)
    then have "nginx_calls (snd (delete e d s)) = nginx_calls s @ []"
      by (simp add: delete_def)
    then show ?thesis by (intro exI [of _ "[]"]) simp
  next
    case gate: (Inr access_data)
    show ?thesis
    proof (cases "get e \<lparr>q_id = del_id d, q_expand = None, q_omit = None\<rparr> s")
      case (Inl err)
      with gate have "nginx_calls (snd (delete e d s)) = nginx_calls s @ []"
        by (simp add: delete_def)
      then show ?thesis by (intro exI [of _ "[]"]) simp
    next
      case got: (Inr fetched_row)
      show ?thesis
      proof (cases fetched_row)
        case None
        with gate got have "nginx_calls (snd (delete e d s)) = nginx_calls s @ []"
          by (simp add: delete_def delete_row_def)
        then show ?thesis by (intro exI [of _ "[]"]) simp
      next
        case (Some row)
        with gate got have run: "delete e d s = delete_row e d (Some row) s"
          by (simp add: delete_def)
        show ?thesis
        proof (cases "deleteConfig e row")
          case (Inl err)
          with run have "nginx_calls (snd (delete e d s)) = nginx_calls s @ [DeleteConfig (row_id row)]"
            by (simp add: delete_calls)
          then show ?thesis by (intro exI [of _ "[DeleteConfig (row_id row)]"]) simp
        next
          case (Inr u)
          with run have "nginx_calls (snd (delete e d s)) = nginx_calls s @ [DeleteConfig (row_id row), Reload]"
            by (simp add: delete_calls)
          with got Some Inr show ?thesis
            by (intro exI [of _ "[DeleteConfig (row_id row), Reload]"]) simp
        qed
      qed
    qed
  qed
next
  assume a: "can e ''proxy_hosts:delete'' (ById (del_id d)) = Inr access_data
      \<and> get e \<lparr>q_id = del_id d, q_expand = None, q_omit = None\<rparr> s = Inr (Some row)
      \<and> deleteConfig e row = Inl err"
  then show "delete e d s
      = (Inl (Rejected err), called (DeleteConfig (row_id row)) (soft_delete (row_id row) s))"
    by (simp add: delete_def delete_row_def Let_def)
  then show "nginx_calls (snd (delete e d s)) = nginx_calls s @ [DeleteConfig (row_id row)]"
    by simp
qed


theorem reload_only_after_deleteConfig_witness:
  "nginx_calls (snd (delete env_all \<lparr>del_id = 5, reason = None\<rparr> three_hosts)) = [DeleteConfig 5, Reload]
   \<and> fst (delete env_broken \<lparr>del_id = 5, reason = None\<rparr> three_hosts)
       = Inl (Rejected ''cannot remove configuration'')
   \<and> nginx_calls (snd (delete env_broken \<lparr>del_id = 5, reason = None\<rparr> three_hosts)) = [DeleteConfig 5]"
proof -
  have gate: "can env_broken ''proxy_hosts:delete'' (ById 5) = Inr \<lparr>permission_visibility = ''all''\<rparr>"
    by (simp add: env_broken_def env_all_def)
  have fails: "deleteConfig env_broken
      (omit ((fetched_of host5 [] None)\<lparr>meta := cleanMeta env_broken (meta host5)\<rparr>) omissions)
      = Inl ''cannot remove configuration''"
    by (simp add: env_broken_def)
  have gate_all: "can env_all ''proxy_hosts:delete'' (ById 5) = Inr \<lparr>permission_visibility = ''all''\<rparr>"
    by (simp add: env_all_def)
  have removes: "deleteConfig env_all row = Inr ()" for row
    by (simp add: env_all_def)
  have "nginx_calls (snd (delete env_all \<lparr>del_id = 5, reason = None\<rparr> three_hosts)) = [DeleteConfig 5, Reload]"
    by (simp add: delete_def gate_all get_host5_as_admin delete_calls removes)
       (simp add: three_hosts_def host5_def)
  moreover
  from reload_only_after_deleteConfig [of env_broken "\<lparr>del_id = 5, reason = None\<rparr>" three_hosts
      "\<lparr>permission_visibility = ''all''\<rparr>"
      "omit ((fetched_of host5 [] None)\<lparr>meta := cleanMeta env_broken (meta host5)\<rparr>) omissions"
      "''cannot remove configuration''"]
    gate fails get_host5_broken
  have "delete env_broken \<lparr>del_id = 5, reason = None\<rparr> three_hosts
          = (Inl (Rejected ''cannot remove configuration''),
             called (DeleteConfig 5) (soft_delete 5 three_hosts))
        \<and> nginx_calls (snd (delete env_broken \<lparr>del_id = 5, reason = None\<rparr> three_hosts))
            = nginx_calls three_hosts @ [DeleteConfig 5]"
    by (simp add: omit_def fetched_of_def host5_def)
  ultimately show ?thesis by (simp add: three_hosts_def)
qed

section \<open>C8: the id check of update\<close>

text \<open>
  C8. When the row handed to update's continuation has an id different from the
  payload's id, update rejects with \<open>InternalValidationError\<close> and the state is
  untouched, so no patch is applied; when the ids are equal that error is never
  produced. As get selects by the payload's id, update as a whole never rejects
  with \<open>InternalValidationError\<close>.
\<close>

theorem update_id_check:
  "(row_id row \<noteq> d_id data
     \<longrightarrow> update_row e data row s
           = (Inl (InternalValidationError
                     (''Proxy Host could not be updated, IDs do not match: ''
                      @ string_of_nat (row_id row) @ '' !== '' @ string_of_nat (d_id data))), s))
   \<and> (row_id row = d_id data
     \<longrightarrow> (\<forall>msg. fst (update_row e data row s) \<noteq> Inl (InternalValidationError msg)))
   \<and> (\<forall>msg. fst (update e data s) \<noteq> Inl (InternalValidationError msg))"
proof (intro conjI impI allI)
  assume "row_id row \<noteq> d_id data"
  then show "update_row e data row s
           = (Inl (InternalValidationError
                     (''Proxy Host could not be updated, IDs do not match: ''
                      @ string_of_nat (row_id row) @ '' !== '' @ string_of_nat (d_id data))), s)"
    by (rule update_row_mismatch)
next
  fix msg assume "row_id row = d_id data"
  then show "fst (update_row e data row s) \<noteq> Inl (InternalValidationError msg)"
    by (rule update_row_match)
next
  fix msg
  show "fst (update e data s) \<noteq> Inl (InternalValidationError msg)"
  proof (cases "can e ''proxy_hosts:update'' (ById (d_id data))")
    case (Inl err)
    then show ?thesis by (simp add: update_def)
  next
    case gate: (Inr access_data)
    show ?thesis
    proof (cases "update_check e s data")
      case (Inl err)
      with update_check_error [of e s data err] gate show ?thesis
        by (auto simp: update_def)
    next
      case chk: (Inr u)
      show ?thesis
      proof (cases "get e \<lparr>q_id = d_id data, q_expand = None, q_omit = None\<rparr> s")
        case (Inl err)
        then have "err \<noteq> InternalValidationError msg"
          by (auto simp: get_def split: sum.splits option.splits)
        with gate chk Inl show ?thesis by (simp add: update_def)
      next
        case (Inr fetched_row)
        show ?thesis
        proof (cases fetched_row)
          case None
          with gate chk Inr show ?thesis by (simp add: update_def)
        next
          case (Some row')
          with Inr have "row_id row' = d_id data"
            using get_resolved [of e "\<lparr>q_id = d_id data, q_expand = None, q_omit = None\<rparr>" s row']
            by auto
          from update_row_match [OF this] gate chk Inr Some show ?thesis
            by (simp add: update_def)
        qed
      qed
    qed
  qed
qed


theorem update_id_check_witness:
  "row_id (fetched_of host6 [] None) \<noteq> d_id keep_names5
   \<and> update_row env_all keep_names5 (fetched_of host6 [] None) three_hosts
       = (Inl (InternalValidationError ''Proxy Host could not be updated, IDs do not match: 6 !== 5''),
          three_hosts)
   \<and> row_id (fetched_of host5 [] None) = d_id keep_names5
   \<and> fst (update_row env_all keep_names5 (fetched_of host5 [] None) three_hosts)
       \<noteq> Inl (InternalValidationError ''Proxy Host could not be updated, IDs do not match: 5 !== 5'')"
  using update_id_check [of "fetched_of host6 [] None" keep_names5 env_all three_hosts]
    update_id_check [of "fetched_of host5 [] None" keep_names5 env_all three_hosts]
  by (simp add: fetched_of_def host5_def host6_def keep_names5_def)

section \<open>C9: create writes into the caller's payload\<close>

text \<open>
  C9. create mutates the payload object it is given: in every run that resolves,
  the payload afterwards holds the actor's identity as \<open>owner_user_id\<close>, whatever
  the caller supplied, and its meta is the merged audit meta; the other fields are
  as the caller gave them, and the audit entry carries this very payload.
\<close>

theorem create_mutates_input:
  assumes "create e data s = (Inr row, data', s')"
  shows "d_owner_user_id data' = Some (token_id e)
       \<and> d_meta data' = Some (assign (assign Map.empty (or_empty (d_meta data))) (meta row))
       \<and> d_domain_names data' = d_domain_names data
       \<and> d_columns data' = d_columns data
       \<and> (\<exists>entry. audit_log s' = audit_log s @ [entry] \<and> audit_meta entry = MetaCreate data')"
proof -
  from create_success [OF assms] obtain s2 where
    run: "create_audit e (data\<lparr>d_owner_user_id := Some (token_id e)\<rparr>) row s2 = (Inr row, data', s')" and
    log: "audit_log s2 = audit_log s"
    by blast
  from create_audit_success [OF run] log show ?thesis
    by auto
qed

theorem create_mutates_input_witness:
  "d_owner_user_id new_host = Some 9
   \<and> d_owner_user_id (fst (snd (create env_all new_host no_hosts))) = Some 1
   \<and> d_meta (fst (snd (create env_all new_host no_hosts)))
       = Some (assign (assign Map.empty (or_empty (d_meta new_host)))
                 (meta (projr (fst (create env_all new_host no_hosts)))))"
  using create_mutates_input [OF resolved_run [OF create_new_host_resolves]]
  by (simp add: new_host_def env_all_def)

section \<open>C10: the not-found branch of delete\<close>

text \<open>
  C10. get never resolves with a falsy value: whenever delete gets a value from
  get it is a row, so the branch of delete that throws \<open>ItemNotFoundError\<close> for a
  falsy row is never taken. Once the gate lets get pass, get either resolves with
  a row or rejects with \<open>ItemNotFoundError\<close> itself.
\<close>

theorem delete_not_found_branch_dead:
  "get e data s \<noteq> Inr None
   \<and> (can e ''proxy_hosts:delete'' (ById (del_id d)) = Inr access_data
      \<and> get e \<lparr>q_id = del_id d, q_expand = None, q_omit = None\<rparr> s = Inr fetched_row
     \<longrightarrow> (\<exists>row. fetched_row = Some row \<and> delete e d s = delete_row e d (Some row) s))
   \<and> (can e ''proxy_hosts:get'' (ById (q_id data)) = Inr access_data'
     \<longrightarrow> (\<exists>row. get e data s = Inr (Some row)) \<or> get e data s = Inl (ItemNotFoundError (q_id data)))"
proof (intro conjI impI)
  show never_falsy: "get e data s \<noteq> Inr None" for data
    by (auto simp: get_def split: sum.splits option.splits)
  assume "can e ''proxy_hosts:delete'' (ById (del_id d)) = Inr access_data
      \<and> get e \<lparr>q_id = del_id d, q_expand = None, q_omit = None\<rparr> s = Inr fetched_row"
  with never_falsy [of "\<lparr>q_id = del_id d, q_expand = None, q_omit = None\<rparr>"]
  show "\<exists>row. fetched_row = Some row \<and> delete e d s = delete_row e d (Some row) s"
    by (cases fetched_row) (auto simp: delete_def)
next
  assume "can e ''proxy_hosts:get'' (ById (q_id data)) = Inr access_data'"
  then show "(\<exists>row. get e data s = Inr (Some row)) \<or> get e data s = Inl (ItemNotFoundError (q_id data))"
    by (auto simp: get_def split: option.splits)
qed


theorem delete_not_found_branch_dead_witness:
  "get env_all \<lparr>q_id = 7, q_expand = None, q_omit = None\<rparr> three_hosts \<noteq> Inr None
   \<and> get env_all \<lparr>q_id = 7, q_expand = None, q_omit = None\<rparr> three_hosts = Inl (ItemNotFoundError 7)
   \<and> (\<exists>row. get env_all \<lparr>q_id = 5, q_expand = None, q_omit = None\<rparr> three_hosts = Inr (Some row)
         \<and> delete env_all \<lparr>del_id = 5, reason = None\<rparr> three_hosts
             = delete_row env_all \<lparr>del_id = 5, reason = None\<rparr> (Some row) three_hosts)"
  using delete_not_found_branch_dead [of env_all "\<lparr>q_id = 7, q_expand = None, q_omit = None\<rparr>"
      three_hosts "\<lparr>del_id = 5, reason = None\<rparr>" "\<lparr>permission_visibility = ''all''\<rparr>"
      "Some (omit ((fetched_of host5 [] None)\<lparr>meta := cleanMeta env_all (meta host5)\<rparr>) omissions)"
      "\<lparr>permission_visibility = ''all''\<rparr>"]
    get_host5_as_admin get_host7_as_admin
  by (simp add: env_all_def)

end
